theory Spec2Isabelle
  imports Main
begin

section \<open>The counterweight stack\<close>

text \<open>
  A shallow embedding of \<^verbatim>\<open>src/src/counterweight-stack.ts\<close>: the class
  \<^verbatim>\<open>CounterweightStack<T>\<close>, a LIFO stack whose \<^verbatim>\<open>pop\<close> only removes the
  top element when the caller presents a counterweight registered for it.
\<close>

subsection \<open>Values and deep equality\<close>

text \<open>
  The element type \<^verbatim>\<open>T\<close> of the class is generic. At run time a slot of type
  \<^verbatim>\<open>T\<close> or \<^verbatim>\<open>T | undefined\<close> holds either JavaScript's \<^verbatim>\<open>undefined\<close> or some
  other value; \<^verbatim>\<open>pop\<close> tests \<^verbatim>\<open>topElement === undefined\<close>, so the two are kept
  apart. A method that returns \<^verbatim>\<open>T | undefined\<close> returns a \<open>jsval\<close>, and the
  "absent" result of the specification is \<open>Undefined\<close>.

  \<^verbatim>\<open>deepEqual\<close> is imported from the package \<^verbatim>\<open>objects-deep-compare\<close>, which is
  not part of this repository. Every function that calls it takes it as its first
  parameter \<open>deepEqual\<close>, a total boolean-valued function of two values, in the argument
  order of the call in the source. Nothing is assumed about it (not even symmetry) unless a
  theorem says so.
\<close>

datatype 'a jsval = Undefined | Defined 'a

type_synonym 'a deep_equal = "'a jsval \<Rightarrow> 'a jsval \<Rightarrow> bool"

subsection \<open>The class, as its methods see it\<close>

text \<open>
  \<^verbatim>\<open>interface CounterweightRule<T> { mainElement: T; counterweights: T[] }\<close> and
  the two private fields of the class. The array \<^verbatim>\<open>items\<close> is a list whose last
  element is the top of the stack (\<^verbatim>\<open>Array.prototype.push\<close> appends,
  \<^verbatim>\<open>Array.prototype.pop\<close> removes the last element). The field \<open>rules\<close> is the
  content of the array \<^verbatim>\<open>this.rules\<close> at the time of the call; how that array is
  created by the constructor, and who else can reach it, is the subject of the subsection
  on the store below.
\<close>

record 'a CounterweightRule =
  mainElement :: "'a jsval"
  counterweights :: "'a jsval list"

record 'a CounterweightStack =
  items :: "'a jsval list"
  rules :: "'a CounterweightRule list"

text \<open>
  \<^verbatim>\<open>isValidCounterweight(main, potentialCounterweight)\<close>:
  \<^verbatim>\<open>this.rules.find((r) => deepEqual(r.mainElement, main))\<close> is the first rule, in
  array order, whose main element matches (\<open>None\<close> for \<^verbatim>\<open>undefined\<close>), and
  \<^verbatim>\<open>rule.counterweights.some((cw) => deepEqual(cw, potentialCounterweight))\<close> is
  \<open>list_ex\<close>.
\<close>

definition isValidCounterweight ::
  "'a deep_equal \<Rightarrow> 'a CounterweightStack \<Rightarrow> 'a jsval \<Rightarrow> 'a jsval \<Rightarrow> bool" where
  "isValidCounterweight deepEqual this main potentialCounterweight =
     (case find (\<lambda>r. deepEqual (mainElement r) main) (rules this) of
        None \<Rightarrow> False
      | Some rule \<Rightarrow> list_ex (\<lambda>cw. deepEqual cw potentialCounterweight) (counterweights rule))"

definition push :: "'a CounterweightStack \<Rightarrow> 'a jsval \<Rightarrow> 'a CounterweightStack" where
  "push this item = this\<lparr>items := items this @ [item]\<rparr>"

definition isEmpty :: "'a CounterweightStack \<Rightarrow> bool" where
  "isEmpty this = (length (items this) = 0)"

definition size_stack :: "'a CounterweightStack \<Rightarrow> nat" where
  "size_stack this = length (items this)"

text \<open>
  \<^verbatim>\<open>peek()\<close> reads \<^verbatim>\<open>this.items[this.items.length - 1]\<close> after the emptiness
  check, so the index is in range wherever it is read.
\<close>

definition peek :: "'a CounterweightStack \<Rightarrow> 'a jsval" where
  "peek this =
     (if isEmpty this then Undefined
      else items this ! (length (items this) - 1))"

text \<open>
  \<^verbatim>\<open>pop(counterweightAttempt)\<close> returns its result together with the instance
  after the call. \<^verbatim>\<open>this.items.pop()\<close> is only reached on a non-empty array, where
  it removes the last element and returns it.
\<close>

definition pop ::
  "'a deep_equal \<Rightarrow> 'a CounterweightStack \<Rightarrow> 'a jsval \<Rightarrow> 'a jsval \<times> 'a CounterweightStack" where
  "pop deepEqual this counterweightAttempt =
     (if isEmpty this then (Undefined, this)
      else
        let topElement = peek this in
        if topElement = Undefined then (Undefined, this)
        else if isValidCounterweight deepEqual this topElement counterweightAttempt
          then (last (items this), this\<lparr>items := butlast (items this)\<rparr>)
          else (Undefined, this))"

definition clear :: "'a CounterweightStack \<Rightarrow> 'a CounterweightStack" where
  "clear this = this\<lparr>items := []\<rparr>"

definition compareTop :: "'a deep_equal \<Rightarrow> 'a CounterweightStack \<Rightarrow> 'a jsval \<Rightarrow> bool" where
  "compareTop deepEqual this item =
     (if isEmpty this then False else deepEqual (peek this) item)"

subsection \<open>The tokens of the example program\<close>

text \<open>
  \<^verbatim>\<open>src/src/example.ts\<close>: tokens are objects \<^verbatim>\<open>{ type, value }\<close> of two strings,
  compared by content.
\<close>

datatype Token = Token string string

definition beginToken :: "Token jsval" where
  "beginToken = Defined (Token ''KEYWORD'' ''begin'')"

definition endToken :: "Token jsval" where
  "endToken = Defined (Token ''KEYWORD'' ''end'')"

definition endDotToken :: "Token jsval" where
  "endDotToken = Defined (Token ''KEYWORD'' ''end.'')"

definition ifToken :: "Token jsval" where
  "ifToken = Defined (Token ''KEYWORD'' ''if'')"

definition thenToken :: "Token jsval" where
  "thenToken = Defined (Token ''KEYWORD'' ''then'')"

definition someOtherToken :: "Token jsval" where
  "someOtherToken = Defined (Token ''IDENTIFIER'' ''myVar'')"

definition myRules :: "Token CounterweightRule list" where
  "myRules =
     [\<lparr>mainElement = beginToken, counterweights = [endToken, endDotToken]\<rparr>,
      \<lparr>mainElement = ifToken, counterweights = [thenToken]\<rparr>]"

subsection \<open>The constructor and the store\<close>

text \<open>
  The constructor copies the caller's rule array, and the caller keeps its own references
  to that array and to the rule objects in it. What a later mutation by the caller can
  change therefore depends on which objects are shared, so the rule data lives in an
  explicit store: a list of cells, the address of a cell being its index. The store is
  typed as \<^verbatim>\<open>CounterweightRule<T>[]\<close> is: an array of references to rule objects, a
  rule object holding its main element and a reference to its array of counterweights.
  Elements of type \<^verbatim>\<open>T\<close> are values, as above.
\<close>

type_synonym addr = nat

datatype 'a cell =
    RuleArray "addr list"
  | RuleObject "'a jsval" addr
  | ElemArray "'a jsval list"

type_synonym 'a store = "'a cell list"

datatype error = TypeError | DataCloneError

definition cellAt :: "'a store \<Rightarrow> addr \<Rightarrow> 'a cell option" where
  "cellAt h a = (if a < length h then Some (h ! a) else None)"

text \<open>
  Reading a rule table out of the store: \<open>None\<close> when a reference does not lead to a
  cell of the kind its type promises, which a well-typed caller cannot bring about.
\<close>

definition loadRule :: "'a store \<Rightarrow> addr \<Rightarrow> 'a CounterweightRule option" where
  "loadRule h r =
     (case cellAt h r of
        Some (RuleObject m c) \<Rightarrow>
          (case cellAt h c of
             Some (ElemArray cws) \<Rightarrow> Some \<lparr>mainElement = m, counterweights = cws\<rparr>
           | _ \<Rightarrow> None)
      | _ \<Rightarrow> None)"

definition loadRules :: "'a store \<Rightarrow> addr \<Rightarrow> 'a CounterweightRule list option" where
  "loadRules h a =
     (case cellAt h a of
        Some (RuleArray rs) \<Rightarrow> those (map (loadRule h) rs)
      | _ \<Rightarrow> None)"

text \<open>
  The cells a rule table is read from: the array, the rule objects it refers to and their
  arrays of counterweights.
\<close>

definition counterweightsRef :: "'a store \<Rightarrow> addr \<Rightarrow> addr list" where
  "counterweightsRef h r =
     (case cellAt h r of Some (RuleObject m c) \<Rightarrow> [c] | _ \<Rightarrow> [])"

definition footprint :: "'a store \<Rightarrow> addr \<Rightarrow> addr list" where
  "footprint h a =
     (case cellAt h a of
        Some (RuleArray rs) \<Rightarrow> a # rs @ concat (map (counterweightsRef h) rs)
      | _ \<Rightarrow> [a])"

text \<open>
  The instance in the store: \<^verbatim>\<open>this.rules\<close> is a reference. The array
  \<^verbatim>\<open>this.items\<close> is created by the field initialiser and no method hands it out, so
  it stays a value.
\<close>

record 'a stack_instance =
  stackItems :: "'a jsval list"
  rulesRef :: addr

text \<open>
  \<^verbatim>\<open>[...rules]\<close>: a new array holding the same references as the caller's. Spreading
  something that is not an array raises a \<^verbatim>\<open>TypeError\<close>.
\<close>

definition spread :: "'a store \<Rightarrow> addr \<Rightarrow> error + 'a store \<times> addr" where
  "spread h a =
     (case cellAt h a of
        Some (RuleArray rs) \<Rightarrow> Inr (h @ [RuleArray rs], length h)
      | _ \<Rightarrow> Inl TypeError)"

text \<open>
  \<^verbatim>\<open>structuredClone\<close> is a built-in of the platform, which may be missing or may
  throw; the constructor takes it as a parameter that returns either an error or the store
  after the call with the reference to the copy. The argument \<^verbatim>\<open>rules\<close> is the
  reference \<open>rulesArg\<close>. The constructor returns the new instance
  (with the initial \<^verbatim>\<open>items = []\<close>), the store, and what it wrote with
  \<^verbatim>\<open>console.warn\<close>. Its \<^verbatim>\<open>catch\<close> handles whatever \<^verbatim>\<open>structuredClone\<close> throws;
  nothing handles an error of the spread in the handler.
\<close>

type_synonym 'a structured_clone = "'a store \<Rightarrow> addr \<Rightarrow> error + 'a store \<times> addr"

definition constructor ::
  "'a structured_clone \<Rightarrow> 'a store \<Rightarrow> addr \<Rightarrow> error + 'a stack_instance \<times> 'a store \<times> string list" where
  "constructor structuredClone h rulesArg =
     (case structuredClone h rulesArg of
        Inr (h', copy) \<Rightarrow> Inr (\<lparr>stackItems = [], rulesRef = copy\<rparr>, h', [])
      | Inl e \<Rightarrow>
          (case spread h rulesArg of
             Inr (h', copy) \<Rightarrow>
               Inr (\<lparr>stackItems = [], rulesRef = copy\<rparr>, h',
                 [''structuredClone failed, using shallow copy for rules. Ensure rules are not modified externally.''])
           | Inl e' \<Rightarrow> Inl e'))"

text \<open>
  A method call on an instance in the store: the method sees the rule table that
  \<^verbatim>\<open>this.rules\<close> refers to at the time of the call.
\<close>

definition view :: "'a store \<Rightarrow> 'a stack_instance \<Rightarrow> 'a CounterweightStack option" where
  "view h obj =
     (case loadRules h (rulesRef obj) of
        None \<Rightarrow> None
      | Some rs \<Rightarrow> Some \<lparr>items = stackItems obj, rules = rs\<rparr>)"

definition popAt ::
  "'a deep_equal \<Rightarrow> 'a store \<Rightarrow> 'a stack_instance \<Rightarrow> 'a jsval \<Rightarrow> error + 'a jsval \<times> 'a stack_instance" where
  "popAt deepEqual h obj counterweightAttempt =
     (case view h obj of
        None \<Rightarrow> Inl TypeError
      | Some this \<Rightarrow>
          (case pop deepEqual this counterweightAttempt of
             (result, this') \<Rightarrow> Inr (result, obj\<lparr>stackItems := items this'\<rparr>)))"

text \<open>
  What the caller can do to the store after the constructor has returned: overwrite a cell
  or allocate a new one. A write is \<open>outside lo hi\<close> when its target is not one of the
  cells \<open>lo, \<dots>, hi - 1\<close>.
\<close>

datatype 'a mutation = Write addr "'a cell" | Alloc "'a cell"

fun mutate :: "'a store \<Rightarrow> 'a mutation \<Rightarrow> 'a store" where
  "mutate h (Write a c) = (if a < length h then h[a := c] else h)"
| "mutate h (Alloc c) = h @ [c]"

definition mutateAll :: "'a store \<Rightarrow> 'a mutation list \<Rightarrow> 'a store" where
  "mutateAll h ms = foldl mutate h ms"

fun outside :: "nat \<Rightarrow> nat \<Rightarrow> 'a mutation \<Rightarrow> bool" where
  "outside lo hi (Write a c) = (a < lo \<or> hi \<le> a)"
| "outside lo hi (Alloc c) = True"

text \<open>
  A deep copy on this store, used below as an instance of \<^verbatim>\<open>structuredClone\<close>: every
  rule object and every array of counterweights is copied into new cells.
\<close>

definition cloneRule :: "'a store \<Rightarrow> addr \<Rightarrow> error + 'a store \<times> addr" where
  "cloneRule h r =
     (case cellAt h r of
        Some (RuleObject m c) \<Rightarrow>
          (case cellAt h c of
             Some (ElemArray cws) \<Rightarrow>
               Inr (h @ [ElemArray cws, RuleObject m (length h)], length h + 1)
           | _ \<Rightarrow> Inl DataCloneError)
      | _ \<Rightarrow> Inl DataCloneError)"

fun cloneRuleList :: "'a store \<Rightarrow> addr list \<Rightarrow> error + 'a store \<times> addr list" where
  "cloneRuleList h [] = Inr (h, [])"
| "cloneRuleList h (r # rs) =
     (case cloneRule h r of
        Inl e \<Rightarrow> Inl e
      | Inr (h1, r') \<Rightarrow>
          (case cloneRuleList h1 rs of
             Inl e \<Rightarrow> Inl e
           | Inr (h2, rs') \<Rightarrow> Inr (h2, r' # rs')))"

definition cloneRules :: "'a structured_clone" where
  "cloneRules h a =
     (case cellAt h a of
        Some (RuleArray rs) \<Rightarrow>
          (case cloneRuleList h rs of
             Inl e \<Rightarrow> Inl e
           | Inr (h1, rs') \<Rightarrow> Inr (h1 @ [RuleArray rs'], length h1))
      | _ \<Rightarrow> Inl DataCloneError)"

definition cloneFails :: "'a structured_clone" where
  "cloneFails h a = Inl DataCloneError"

text \<open>The rules of the example program, as the caller holds them in the store.\<close>

definition myStore :: "Token store" where
  "myStore =
     [ElemArray [endToken, endDotToken],
      RuleObject beginToken 0,
      ElemArray [thenToken],
      RuleObject ifToken 2,
      RuleArray [1, 3]]"

subsection \<open>Calls that can raise\<close>

text \<open>
  No method of the class has a \<^verbatim>\<open>throw\<close>, and none has a \<^verbatim>\<open>try\<close>: an exception
  raised by the imported \<^verbatim>\<open>deepEqual\<close> leaves \<^verbatim>\<open>pop\<close> or \<^verbatim>\<open>compareTop\<close> as it is.
  Here \<^verbatim>\<open>deepEqual\<close> is a parameter that returns a boolean or raises, and the two
  methods that call it return their result or the error. \<^verbatim>\<open>Array.prototype.find\<close> and
  \<^verbatim>\<open>Array.prototype.some\<close> call their predicate on the elements in order and stop at
  the first element that satisfies it, so an error is raised only by a call they reach.
\<close>

type_synonym 'a deep_equal_js = "'a jsval \<Rightarrow> 'a jsval \<Rightarrow> error + bool"

fun findRule ::
  "'a deep_equal_js \<Rightarrow> 'a jsval \<Rightarrow> 'a CounterweightRule list \<Rightarrow> error + 'a CounterweightRule option" where
  "findRule deepEqual main [] = Inr None"
| "findRule deepEqual main (r # rs) =
     (case deepEqual (mainElement r) main of
        Inl e \<Rightarrow> Inl e
      | Inr b \<Rightarrow> if b then Inr (Some r) else findRule deepEqual main rs)"

fun someCounterweight :: "'a deep_equal_js \<Rightarrow> 'a jsval \<Rightarrow> 'a jsval list \<Rightarrow> error + bool" where
  "someCounterweight deepEqual potentialCounterweight [] = Inr False"
| "someCounterweight deepEqual potentialCounterweight (cw # cws) =
     (case deepEqual cw potentialCounterweight of
        Inl e \<Rightarrow> Inl e
      | Inr b \<Rightarrow> if b then Inr True else someCounterweight deepEqual potentialCounterweight cws)"

definition isValidCounterweightE ::
  "'a deep_equal_js \<Rightarrow> 'a CounterweightStack \<Rightarrow> 'a jsval \<Rightarrow> 'a jsval \<Rightarrow> error + bool" where
  "isValidCounterweightE deepEqual this main potentialCounterweight =
     (case findRule deepEqual main (rules this) of
        Inl e \<Rightarrow> Inl e
      | Inr None \<Rightarrow> Inr False
      | Inr (Some rule) \<Rightarrow>
          someCounterweight deepEqual potentialCounterweight (counterweights rule))"

definition popE ::
  "'a deep_equal_js \<Rightarrow> 'a CounterweightStack \<Rightarrow> 'a jsval
     \<Rightarrow> error + 'a jsval \<times> 'a CounterweightStack" where
  "popE deepEqual this counterweightAttempt =
     (if isEmpty this then Inr (Undefined, this)
      else
        let topElement = peek this in
        if topElement = Undefined then Inr (Undefined, this)
        else
          (case isValidCounterweightE deepEqual this topElement counterweightAttempt of
             Inl e \<Rightarrow> Inl e
           | Inr valid \<Rightarrow>
               if valid then Inr (last (items this), this\<lparr>items := butlast (items this)\<rparr>)
               else Inr (Undefined, this)))"

definition compareTopE ::
  "'a deep_equal_js \<Rightarrow> 'a CounterweightStack \<Rightarrow> 'a jsval \<Rightarrow> error + bool" where
  "compareTopE deepEqual this item =
     (if isEmpty this then Inr False else deepEqual (peek this) item)"

text \<open>
  The public methods as calls on an instance: a call returns what the method returns and
  the instance after it, or the error it raises. The methods that do not call
  \<^verbatim>\<open>deepEqual\<close> have no statement that can raise. A sequence of calls stops at the first
  error.
\<close>

datatype 'a method_call =
    Push "'a jsval"
  | Pop "'a jsval"
  | Peek
  | IsEmpty
  | Size
  | Clear
  | CompareTop "'a jsval"

datatype 'a method_result =
    ReturnsVoid
  | Returns "'a jsval"
  | ReturnsBoolean bool
  | ReturnsNumber nat

fun invoke ::
  "'a deep_equal_js \<Rightarrow> 'a CounterweightStack \<Rightarrow> 'a method_call
     \<Rightarrow> error + 'a method_result \<times> 'a CounterweightStack" where
  "invoke deepEqual this (Push item) = Inr (ReturnsVoid, push this item)"
| "invoke deepEqual this (Pop counterweightAttempt) =
     (case popE deepEqual this counterweightAttempt of
        Inl e \<Rightarrow> Inl e
      | Inr (result, this') \<Rightarrow> Inr (Returns result, this'))"
| "invoke deepEqual this Peek = Inr (Returns (peek this), this)"
| "invoke deepEqual this IsEmpty = Inr (ReturnsBoolean (isEmpty this), this)"
| "invoke deepEqual this Size = Inr (ReturnsNumber (size_stack this), this)"
| "invoke deepEqual this Clear = Inr (ReturnsVoid, clear this)"
| "invoke deepEqual this (CompareTop item) =
     (case compareTopE deepEqual this item of
        Inl e \<Rightarrow> Inl e
      | Inr b \<Rightarrow> Inr (ReturnsBoolean b, this))"

fun invokeAll ::
  "'a deep_equal_js \<Rightarrow> 'a CounterweightStack \<Rightarrow> 'a method_call list
     \<Rightarrow> error + 'a method_result list \<times> 'a CounterweightStack" where
  "invokeAll deepEqual this [] = Inr ([], this)"
| "invokeAll deepEqual this (c # cs) =
     (case invoke deepEqual this c of
        Inl e \<Rightarrow> Inl e
      | Inr (result, this') \<Rightarrow>
          (case invokeAll deepEqual this' cs of
             Inl e \<Rightarrow> Inl e
           | Inr (results, this'') \<Rightarrow> Inr (result # results, this'')))"

section \<open>Properties\<close>

lemmas token_defs =
  beginToken_def endToken_def endDotToken_def ifToken_def thenToken_def someOtherToken_def
  myRules_def

lemmas stack_defs =
  isValidCounterweight_def push_def isEmpty_def size_stack_def peek_def pop_def clear_def
  compareTop_def Let_def

lemmas store_defs =
  cellAt_def loadRule_def loadRules_def counterweightsRef_def footprint_def spread_def
  constructor_def view_def popAt_def mutateAll_def cloneRule_def cloneRules_def
  cloneFails_def myStore_def

lemmas raise_defs =
  isValidCounterweightE_def popE_def compareTopE_def

subsection \<open>Rule lookup\<close>

text \<open>
  \<open>find\<close> returns the first rule that matches, whatever follows it, and a rule that
  only matches where an earlier rule matches is never returned.
\<close>

lemma find_first_match:
  assumes "\<forall>r\<in>set before. \<not> P r" and "P rule"
  shows "find P (before @ rule # after) = Some rule"
  using assms by (induction before) auto

lemma find_skip:
  "\<not> P r \<Longrightarrow> find P (mid @ r # after) = find P (mid @ after)"
  by (induction mid) auto

lemma find_shadowed:
  assumes "P r2 \<longrightarrow> P r1"
  shows "find P (before @ r1 # mid @ r2 # after) = find P (before @ r1 # mid @ after)"
  using assms by (induction before) (auto simp: find_skip)

lemma isValid_first_match:
  assumes "rules this = before @ rule # after"
    and "\<forall>r\<in>set before. \<not> deq (mainElement r) m"
    and "deq (mainElement rule) m"
  shows "isValidCounterweight deq this m x = (\<exists>cw\<in>set (counterweights rule). deq cw x)"
proof -
  have "find (\<lambda>r. deq (mainElement r) m) (before @ rule # after) = Some rule"
    by (rule find_first_match) (use assms in auto)
  then show ?thesis
    using assms(1) by (simp add: isValidCounterweight_def list_ex_iff)
qed

lemma isValid_no_rule:
  assumes "\<forall>r\<in>set (rules this). \<not> deq (mainElement r) m"
  shows "\<not> isValidCounterweight deq this m x"
proof -
  have "find (\<lambda>r. deq (mainElement r) m) (rules this) = None"
    using assms by (simp add: find_None_iff)
  then show ?thesis by (simp add: isValidCounterweight_def)
qed

lemma isValid_shadowed:
  assumes "\<forall>t. deq (mainElement r2) t \<longrightarrow> deq (mainElement r1) t"
  shows "isValidCounterweight deq \<lparr>items = its, rules = before @ r1 # mid @ r2 # after\<rparr> m x
       = isValidCounterweight deq \<lparr>items = its', rules = before @ r1 # mid @ after\<rparr> m x"
proof -
  have "find (\<lambda>r. deq (mainElement r) m) (before @ r1 # mid @ r2 # after)
      = find (\<lambda>r. deq (mainElement r) m) (before @ r1 # mid @ after)"
    by (rule find_shadowed) (use assms in blast)
  then show ?thesis by (simp add: isValidCounterweight_def)
qed

subsection \<open>The three outcomes of pop\<close>

lemma peek_last: "\<not> isEmpty this \<Longrightarrow> peek this = last (items this)"
  by (simp add: peek_def isEmpty_def last_conv_nth)

lemma pop_cases:
  "pop deq this x =
     (if \<not> isEmpty this \<and> peek this \<noteq> Undefined \<and> isValidCounterweight deq this (peek this) x
      then (peek this, this\<lparr>items := butlast (items this)\<rparr>)
      else (Undefined, this))"
  by (simp add: pop_def Let_def peek_last)

lemma pop_shadowed:
  assumes "\<forall>t. deq (mainElement r2) t \<longrightarrow> deq (mainElement r1) t"
  shows "fst (pop deq \<lparr>items = its, rules = before @ r1 # mid @ r2 # after\<rparr> x)
           = fst (pop deq \<lparr>items = its, rules = before @ r1 # mid @ after\<rparr> x)
       \<and> items (snd (pop deq \<lparr>items = its, rules = before @ r1 # mid @ r2 # after\<rparr> x))
           = items (snd (pop deq \<lparr>items = its, rules = before @ r1 # mid @ after\<rparr> x))"
  using isValid_shadowed [OF assms, of its before mid after _ x its]
  by (simp add: pop_cases isEmpty_def peek_def)

text \<open>
  C1, as amended. On a non-empty stack whose top element is not \<^verbatim>\<open>undefined\<close>, let
  \<open>rule\<close> be the first rule, in the order of the rule table, whose main element is
  deep-equal to the top. Then \<open>pop x\<close> removes the top element, returns it and makes
  the size one less if \<open>x\<close> is deep-equal to one of the counterweights of \<open>rule\<close>;
  otherwise it returns \<^verbatim>\<open>undefined\<close> and leaves the stack as it was.
\<close>

theorem pop_matching_rule:
  assumes "\<not> isEmpty this"
    and "peek this \<noteq> Undefined"
    and "rules this = before @ rule # after"
    and "\<forall>r\<in>set before. \<not> deq (mainElement r) (peek this)"
    and "deq (mainElement rule) (peek this)"
  shows "((\<exists>cw\<in>set (counterweights rule). deq cw x) \<longrightarrow>
            pop deq this x = (peek this, this\<lparr>items := butlast (items this)\<rparr>)
          \<and> size_stack (snd (pop deq this x)) + 1 = size_stack this)
     \<and> (\<not> (\<exists>cw\<in>set (counterweights rule). deq cw x) \<longrightarrow>
            pop deq this x = (Undefined, this))"
proof -
  have "isValidCounterweight deq this (peek this) x = (\<exists>cw\<in>set (counterweights rule). deq cw x)"
    by (rule isValid_first_match) (use assms in auto)
  then show ?thesis
    using assms(1,2) by (simp add: pop_cases size_stack_def isEmpty_def)
qed

text \<open>
  The scenario of the example program: with \<^verbatim>\<open>begin\<close> and \<^verbatim>\<open>if\<close> on the stack,
  \<^verbatim>\<open>pop(then)\<close> returns \<^verbatim>\<open>if\<close>, and \<^verbatim>\<open>pop(begin)\<close> is rejected.
\<close>

theorem pop_matching_rule_witness:
  "pop (=) \<lparr>items = [beginToken, ifToken], rules = myRules\<rparr> thenToken
     = (ifToken, \<lparr>items = [beginToken], rules = myRules\<rparr>)
   \<and> size_stack (snd (pop (=) \<lparr>items = [beginToken, ifToken], rules = myRules\<rparr> thenToken)) + 1
     = size_stack \<lparr>items = [beginToken, ifToken], rules = myRules\<rparr>
   \<and> pop (=) \<lparr>items = [beginToken, ifToken], rules = myRules\<rparr> beginToken
     = (Undefined, \<lparr>items = [beginToken, ifToken], rules = myRules\<rparr>)"
proof -
  let ?s = "\<lparr>items = [beginToken, ifToken], rules = myRules\<rparr>"
  let ?r1 = "\<lparr>mainElement = beginToken, counterweights = [endToken, endDotToken]\<rparr>"
  let ?r2 = "\<lparr>mainElement = ifToken, counterweights = [thenToken]\<rparr>"
  have e: "\<not> isEmpty ?s" by (simp add: isEmpty_def)
  have u: "peek ?s \<noteq> Undefined" by (simp add: peek_def isEmpty_def ifToken_def)
  have r: "rules ?s = [?r1] @ ?r2 # []" by (simp add: myRules_def)
  have b: "\<forall>r\<in>set [?r1]. \<not> mainElement r = peek ?s"
    by (simp add: peek_def isEmpty_def token_defs)
  have m: "mainElement ?r2 = peek ?s" by (simp add: peek_def isEmpty_def)
  show ?thesis
    using pop_matching_rule [where deq = "(=)" and x = thenToken, OF e u r b m]
      pop_matching_rule [where deq = "(=)" and x = beginToken, OF e u r b m]
    by (simp add: peek_def isEmpty_def size_stack_def token_defs)
qed

text \<open>
  C1 as it is stated, for every top element and for any rule that matches it, fails in
  two ways; in both the stack is left as it was, so nothing is removed. With the
  rule \<^verbatim>\<open>{mainElement: undefined, counterweights: [1]}\<close> and \<^verbatim>\<open>undefined\<close> on top,
  \<^verbatim>\<open>pop(1)\<close> is rejected although \<open>1\<close> is a counterweight of the rule that matches
  the top. With two rules for the main element \<open>0\<close>, the first with counterweight
  \<open>1\<close> and the second with counterweight \<open>2\<close>, and \<open>0\<close> on top, \<^verbatim>\<open>pop(2)\<close> is
  rejected although the second rule matches the top and lists \<open>2\<close>.
\<close>

theorem pop_matching_rule_counterexample:
  "\<not> isEmpty \<lparr>items = [Undefined],
       rules = [\<lparr>mainElement = Undefined, counterweights = [Defined (1::nat)]\<rparr>]\<rparr>
   \<and> mainElement \<lparr>mainElement = Undefined, counterweights = [Defined (1::nat)]\<rparr>
       = peek \<lparr>items = [Undefined],
           rules = [\<lparr>mainElement = Undefined, counterweights = [Defined (1::nat)]\<rparr>]\<rparr>
   \<and> Defined 1 \<in> set (counterweights \<lparr>mainElement = Undefined, counterweights = [Defined (1::nat)]\<rparr>)
   \<and> pop (=) \<lparr>items = [Undefined],
         rules = [\<lparr>mainElement = Undefined, counterweights = [Defined (1::nat)]\<rparr>]\<rparr> (Defined 1)
       = (Undefined, \<lparr>items = [Undefined],
           rules = [\<lparr>mainElement = Undefined, counterweights = [Defined (1::nat)]\<rparr>]\<rparr>)
   \<and> \<not> isEmpty \<lparr>items = [Defined (0::nat)],
         rules = [\<lparr>mainElement = Defined 0, counterweights = [Defined 1]\<rparr>,
                  \<lparr>mainElement = Defined 0, counterweights = [Defined 2]\<rparr>]\<rparr>
   \<and> mainElement \<lparr>mainElement = Defined (0::nat), counterweights = [Defined 2]\<rparr>
       = peek \<lparr>items = [Defined (0::nat)],
         rules = [\<lparr>mainElement = Defined 0, counterweights = [Defined 1]\<rparr>,
                  \<lparr>mainElement = Defined 0, counterweights = [Defined 2]\<rparr>]\<rparr>
   \<and> Defined 2 \<in> set (counterweights \<lparr>mainElement = Defined (0::nat), counterweights = [Defined 2]\<rparr>)
   \<and> pop (=) \<lparr>items = [Defined (0::nat)],
         rules = [\<lparr>mainElement = Defined 0, counterweights = [Defined 1]\<rparr>,
                  \<lparr>mainElement = Defined 0, counterweights = [Defined 2]\<rparr>]\<rparr> (Defined 2)
       = (Undefined, \<lparr>items = [Defined 0],
         rules = [\<lparr>mainElement = Defined 0, counterweights = [Defined 1]\<rparr>,
                  \<lparr>mainElement = Defined 0, counterweights = [Defined 2]\<rparr>]\<rparr>)"
  by (simp add: stack_defs)

text \<open>
  C2. If two rules have deep-equal main elements (deep equality being transitive), the
  later one is shadowed: with or without it in the table, every \<open>pop\<close> returns the same
  result and leaves the same items, for every stack content and every argument. Where the
  earlier rule is the first one matching an element \<open>m\<close>, an argument is a valid
  counterweight for \<open>m\<close> exactly if the earlier rule lists an element deep-equal to
  it.
\<close>

theorem first_duplicate_rule_wins:
  assumes "transp deq"
    and "deq (mainElement r1) (mainElement r2)"
  shows "fst (pop deq \<lparr>items = its, rules = before @ r1 # mid @ r2 # after\<rparr> x)
           = fst (pop deq \<lparr>items = its, rules = before @ r1 # mid @ after\<rparr> x)
       \<and> items (snd (pop deq \<lparr>items = its, rules = before @ r1 # mid @ r2 # after\<rparr> x))
           = items (snd (pop deq \<lparr>items = its, rules = before @ r1 # mid @ after\<rparr> x))
       \<and> ((\<forall>r\<in>set before. \<not> deq (mainElement r) m) \<and> deq (mainElement r1) m \<longrightarrow>
            isValidCounterweight deq \<lparr>items = its, rules = before @ r1 # mid @ r2 # after\<rparr> m x
              = (\<exists>cw\<in>set (counterweights r1). deq cw x))"
proof -
  have sh: "\<forall>t. deq (mainElement r2) t \<longrightarrow> deq (mainElement r1) t"
    using assms by (blast dest: transpD)
  have fm: "isValidCounterweight deq \<lparr>items = its, rules = before @ r1 # mid @ r2 # after\<rparr> m x
              = (\<exists>cw\<in>set (counterweights r1). deq cw x)"
    if "\<forall>r\<in>set before. \<not> deq (mainElement r) m" and "deq (mainElement r1) m"
    by (rule isValid_first_match [where before = before and after = "mid @ r2 # after"])
       (use that in auto)
  show ?thesis
    using pop_shadowed [OF sh, of its before mid after x] fm by blast
qed

theorem first_duplicate_rule_wins_witness:
  "transp ((=) :: nat jsval \<Rightarrow> nat jsval \<Rightarrow> bool)
   \<and> pop (=) \<lparr>items = [Defined (0::nat)],
         rules = [\<lparr>mainElement = Defined 0, counterweights = [Defined 1]\<rparr>,
                  \<lparr>mainElement = Defined 0, counterweights = [Defined 2]\<rparr>]\<rparr> (Defined 2)
     = (Undefined, \<lparr>items = [Defined 0],
         rules = [\<lparr>mainElement = Defined 0, counterweights = [Defined 1]\<rparr>,
                  \<lparr>mainElement = Defined 0, counterweights = [Defined 2]\<rparr>]\<rparr>)
   \<and> fst (pop (=) \<lparr>items = [Defined (0::nat)],
         rules = [\<lparr>mainElement = Defined 0, counterweights = [Defined 1]\<rparr>]\<rparr> (Defined 2))
     = Undefined
   \<and> isValidCounterweight (=) \<lparr>items = [Defined (0::nat)],
         rules = [\<lparr>mainElement = Defined 0, counterweights = [Defined 1]\<rparr>,
                  \<lparr>mainElement = Defined 0, counterweights = [Defined 2]\<rparr>]\<rparr> (Defined 0) (Defined 1)"
proof -
  have t: "transp ((=) :: nat jsval \<Rightarrow> nat jsval \<Rightarrow> bool)"
    by (simp add: transp_def)
  have d: "mainElement \<lparr>mainElement = Defined (0::nat), counterweights = [Defined 1]\<rparr>
         = mainElement \<lparr>mainElement = Defined (0::nat), counterweights = [Defined 2]\<rparr>"
    by simp
  show ?thesis
    using t first_duplicate_rule_wins [OF t d, of "[Defined 0]" "[]" "[]" "[]" "Defined 2" "Defined 0" ]
      first_duplicate_rule_wins [OF t d, of "[Defined 0]" "[]" "[]" "[]" "Defined 1" "Defined 0" ]
    by (simp add: stack_defs)
qed

text \<open>
  C3. On a non-empty stack whose top element matches the main element of no rule,
  \<open>pop x\<close> returns \<^verbatim>\<open>undefined\<close> for every \<open>x\<close> and the stack is as it was: the
  same items, so the same size and the same \<open>peek\<close>.
\<close>

theorem pop_no_rule:
  assumes "\<not> isEmpty this"
    and "\<forall>r\<in>set (rules this). \<not> deq (mainElement r) (peek this)"
  shows "pop deq this x = (Undefined, this)
     \<and> items (snd (pop deq this x)) = items this
     \<and> size_stack (snd (pop deq this x)) = size_stack this
     \<and> peek (snd (pop deq this x)) = peek this"
proof -
  have "\<not> isValidCounterweight deq this (peek this) x"
    by (rule isValid_no_rule) (use assms(2) in blast)
  then show ?thesis by (simp add: pop_cases)
qed

theorem pop_no_rule_witness:
  "\<not> isEmpty \<lparr>items = [beginToken, someOtherToken], rules = myRules\<rparr>
   \<and> peek \<lparr>items = [beginToken, someOtherToken], rules = myRules\<rparr> = someOtherToken
   \<and> pop (=) \<lparr>items = [beginToken, someOtherToken], rules = myRules\<rparr> endDotToken
       = (Undefined, \<lparr>items = [beginToken, someOtherToken], rules = myRules\<rparr>)"
proof -
  have e: "\<not> isEmpty \<lparr>items = [beginToken, someOtherToken], rules = myRules\<rparr>"
    by (simp add: isEmpty_def)
  have n: "\<forall>r\<in>set (rules \<lparr>items = [beginToken, someOtherToken], rules = myRules\<rparr>).
             \<not> mainElement r = peek \<lparr>items = [beginToken, someOtherToken], rules = myRules\<rparr>"
    by (simp add: peek_def isEmpty_def token_defs)
  show ?thesis
    using e pop_no_rule [where deq = "(=)" and x = endDotToken, OF e n]
    by (simp add: peek_def isEmpty_def)
qed

text \<open>
  C4. On an empty stack \<open>pop x\<close> returns \<^verbatim>\<open>undefined\<close> for every \<open>x\<close>, the
  instance is unchanged and its size is still \<open>0\<close>.
\<close>

theorem pop_empty:
  "isEmpty this \<Longrightarrow>
     pop deq this x = (Undefined, this) \<and> size_stack (snd (pop deq this x)) = 0"
  by (simp add: pop_def isEmpty_def size_stack_def)

theorem pop_empty_witness:
  "isEmpty \<lparr>items = [], rules = myRules\<rparr>
   \<and> pop (=) \<lparr>items = [], rules = myRules\<rparr> endToken = (Undefined, \<lparr>items = [], rules = myRules\<rparr>)
   \<and> size_stack (snd (pop (=) \<lparr>items = [], rules = myRules\<rparr> endToken)) = 0"
proof -
  have e: "isEmpty \<lparr>items = [], rules = myRules\<rparr>"
    by (simp add: isEmpty_def)
  show ?thesis
    using e pop_empty [OF e, of "(=)" endToken] by (simp add: size_stack_def)
qed

text \<open>
  C10. On a non-empty stack whose top element is \<^verbatim>\<open>undefined\<close>, \<open>pop x\<close> returns
  \<^verbatim>\<open>undefined\<close> and leaves the stack as it was for every \<open>x\<close>, whatever the rule
  table says: the rules are not consulted.
\<close>

theorem pop_undefined_top:
  "\<not> isEmpty this \<Longrightarrow> peek this = Undefined \<Longrightarrow> pop deq this x = (Undefined, this)"
  by (simp add: pop_def Let_def)

text \<open>
  Here a rule has the main element \<^verbatim>\<open>undefined\<close> and lists the argument, so that
  \<open>isValidCounterweight\<close> would accept it.
\<close>

theorem pop_undefined_top_witness:
  "isValidCounterweight (=)
       \<lparr>items = [Defined 0, Undefined],
        rules = [\<lparr>mainElement = Undefined, counterweights = [Defined (1::nat)]\<rparr>]\<rparr>
       Undefined (Defined 1)
   \<and> pop (=) \<lparr>items = [Defined 0, Undefined],
        rules = [\<lparr>mainElement = Undefined, counterweights = [Defined (1::nat)]\<rparr>]\<rparr> (Defined 1)
     = (Undefined, \<lparr>items = [Defined 0, Undefined],
        rules = [\<lparr>mainElement = Undefined, counterweights = [Defined (1::nat)]\<rparr>]\<rparr>)"
proof -
  let ?s = "\<lparr>items = [Defined 0, Undefined],
        rules = [\<lparr>mainElement = Undefined, counterweights = [Defined (1::nat)]\<rparr>]\<rparr>"
  have e: "\<not> isEmpty ?s" by (simp add: isEmpty_def)
  have p: "peek ?s = Undefined" by (simp add: peek_def isEmpty_def)
  have v: "isValidCounterweight (=) ?s Undefined (Defined 1)"
    by (simp add: isValidCounterweight_def)
  show ?thesis
    using v pop_undefined_top [OF e p, of "(=)" "Defined 1"] by simp
qed

subsection \<open>push, peek, compareTop and clear\<close>

lemma size_foldl_push: "size_stack (foldl push this xs) = size_stack this + length xs"
  by (induction xs arbitrary: this) (simp_all add: push_def size_stack_def)

lemma peek_push: "peek (push this item) = item"
  by (simp add: peek_def push_def isEmpty_def)

lemma peek_foldl_push: "xs \<noteq> [] \<Longrightarrow> peek (foldl push this xs) = last xs"
  by (induction xs rule: rev_induct) (simp_all add: peek_push)

text \<open>
  C6. \<open>push\<close> has no failure case: it makes the size one more and its argument the
  top. After any sequence \<open>xs\<close> of pushes the size has grown by the length of \<open>xs\<close>,
  so that on a new instance it is the number of pushes, and if \<open>xs\<close> is not empty
  \<open>peek\<close> returns the element pushed last.
\<close>

theorem push_sequence:
  "size_stack (push this item) = size_stack this + 1
   \<and> peek (push this item) = item
   \<and> size_stack (foldl push this xs) = size_stack this + length xs
   \<and> size_stack (foldl push \<lparr>items = [], rules = rs\<rparr> xs) = length xs
   \<and> (xs \<noteq> [] \<longrightarrow> peek (foldl push this xs) = last xs)"
  using size_foldl_push [of this "[item]"] size_foldl_push [of "\<lparr>items = [], rules = rs\<rparr>" xs]
  by (simp add: size_foldl_push peek_push peek_foldl_push) (simp add: size_stack_def)

theorem push_sequence_witness:
  "size_stack (foldl push \<lparr>items = [], rules = myRules\<rparr> [beginToken, ifToken]) = 2
   \<and> peek (foldl push \<lparr>items = [], rules = myRules\<rparr> [beginToken, ifToken]) = ifToken"
  using push_sequence [of "\<lparr>items = [], rules = myRules\<rparr>" beginToken "[beginToken, ifToken]" myRules]
  by simp

text \<open>
  C8. \<open>compareTop item\<close> is false on an empty stack; on a non-empty stack it is the
  deep equality, the same function that rule matching uses, of the top element and
  \<open>item\<close>. It returns a boolean and no new instance: it has no assignment to a field.
\<close>

theorem compareTop_spec:
  "(isEmpty this \<longrightarrow> compareTop deq this item = False)
   \<and> (\<not> isEmpty this \<longrightarrow>
        compareTop deq this item = deq (peek this) item \<and> peek this = last (items this))"
  by (simp add: compareTop_def peek_last)

theorem compareTop_spec_witness:
  "isEmpty \<lparr>items = [], rules = myRules\<rparr>
   \<and> \<not> compareTop (=) \<lparr>items = [], rules = myRules\<rparr> ifToken
   \<and> \<not> isEmpty \<lparr>items = [beginToken, ifToken], rules = myRules\<rparr>
   \<and> compareTop (=) \<lparr>items = [beginToken, ifToken], rules = myRules\<rparr> ifToken
   \<and> \<not> compareTop (=) \<lparr>items = [beginToken, ifToken], rules = myRules\<rparr> beginToken"
  using compareTop_spec [of "\<lparr>items = [], rules = myRules\<rparr>" "(=)" ifToken]
    compareTop_spec [of "\<lparr>items = [beginToken, ifToken], rules = myRules\<rparr>" "(=)" ifToken]
    compareTop_spec [of "\<lparr>items = [beginToken, ifToken], rules = myRules\<rparr>" "(=)" beginToken]
  by (simp add: isEmpty_def token_defs)

text \<open>
  C5, as amended. After \<open>clear\<close> the size is \<open>0\<close>, \<open>peek\<close> and every \<open>pop\<close>
  return \<^verbatim>\<open>undefined\<close>, and the rule table is the same. Pushing an element \<open>m\<close>
  other than \<^verbatim>\<open>undefined\<close> and then popping with an argument deep-equal to a
  counterweight of the first rule matching \<open>m\<close> returns \<open>m\<close> and leaves the cleared
  stack.
\<close>

theorem clear_keeps_rules:
  "size_stack (clear this) = 0
   \<and> isEmpty (clear this)
   \<and> peek (clear this) = Undefined
   \<and> pop deq (clear this) x = (Undefined, clear this)
   \<and> rules (clear this) = rules this
   \<and> (m \<noteq> Undefined
        \<and> rules this = before @ rule # after
        \<and> (\<forall>r\<in>set before. \<not> deq (mainElement r) m)
        \<and> deq (mainElement rule) m
        \<and> (\<exists>cw\<in>set (counterweights rule). deq cw y)
      \<longrightarrow> pop deq (push (clear this) m) y = (m, clear this))"
proof -
  have "pop deq (push (clear this) m) y = (m, clear this)"
    if "m \<noteq> Undefined" and "rules this = before @ rule # after"
      and "\<forall>r\<in>set before. \<not> deq (mainElement r) m" and "deq (mainElement rule) m"
      and "\<exists>cw\<in>set (counterweights rule). deq cw y"
  proof -
    have "isValidCounterweight deq (push (clear this) m) m y
        = (\<exists>cw\<in>set (counterweights rule). deq cw y)"
      by (rule isValid_first_match [where before = before and after = after])
         (use that in \<open>auto simp: push_def clear_def\<close>)
    then show ?thesis
      using that(1,5) by (simp add: pop_cases peek_push) (simp add: push_def clear_def isEmpty_def)
  qed
  then show ?thesis
    by (simp add: pop_cases) (simp add: clear_def size_stack_def isEmpty_def peek_def)
qed

theorem clear_keeps_rules_witness:
  "clear \<lparr>items = [beginToken, someOtherToken], rules = myRules\<rparr> = \<lparr>items = [], rules = myRules\<rparr>
   \<and> pop (=) (clear \<lparr>items = [beginToken, someOtherToken], rules = myRules\<rparr>) endToken
       = (Undefined, \<lparr>items = [], rules = myRules\<rparr>)
   \<and> pop (=) (push (clear \<lparr>items = [beginToken, someOtherToken], rules = myRules\<rparr>) beginToken)
         endDotToken
       = (beginToken, \<lparr>items = [], rules = myRules\<rparr>)"
proof -
  let ?s = "\<lparr>items = [beginToken, someOtherToken], rules = myRules\<rparr>"
  let ?r1 = "\<lparr>mainElement = beginToken, counterweights = [endToken, endDotToken]\<rparr>"
  let ?r2 = "\<lparr>mainElement = ifToken, counterweights = [thenToken]\<rparr>"
  have c: "clear ?s = \<lparr>items = [], rules = myRules\<rparr>" by (simp add: clear_def)
  have h: "beginToken \<noteq> Undefined \<and> rules ?s = [] @ ?r1 # [?r2]
        \<and> (\<forall>r\<in>set []. \<not> mainElement r = beginToken)
        \<and> mainElement ?r1 = beginToken
        \<and> (\<exists>cw\<in>set (counterweights ?r1). cw = endDotToken)"
    by (simp add: token_defs)
  show ?thesis
    using clear_keeps_rules [of ?s "(=)" endToken beginToken "[]" ?r1 "[?r2]" endDotToken] h
    by (simp add: c)
qed

text \<open>
  C5 as it is stated includes the ruled element \<^verbatim>\<open>undefined\<close>: after \<open>clear\<close>,
  pushing \<^verbatim>\<open>undefined\<close> and popping with a counterweight that its rule lists is
  rejected, and the element stays on the stack. It also includes a counterweight that
  only a later rule for the same main element lists: with two rules for \<open>0\<close>, the
  first listing \<open>1\<close> and the second listing \<open>2\<close>, pushing \<open>0\<close> after \<open>clear\<close> and
  popping with \<open>2\<close> is rejected.
\<close>

theorem clear_keeps_rules_counterexample:
  "mainElement \<lparr>mainElement = Undefined, counterweights = [Defined (1::nat)]\<rparr> = Undefined
   \<and> Defined 1 \<in> set (counterweights \<lparr>mainElement = Undefined, counterweights = [Defined (1::nat)]\<rparr>)
   \<and> pop (=)
        (push (clear \<lparr>items = [Defined 0],
                 rules = [\<lparr>mainElement = Undefined, counterweights = [Defined (1::nat)]\<rparr>]\<rparr>)
           Undefined)
        (Defined 1)
     = (Undefined, \<lparr>items = [Undefined],
          rules = [\<lparr>mainElement = Undefined, counterweights = [Defined (1::nat)]\<rparr>]\<rparr>)
   \<and> mainElement \<lparr>mainElement = Defined (0::nat), counterweights = [Defined 2]\<rparr> = Defined 0
   \<and> Defined 2 \<in> set (counterweights \<lparr>mainElement = Defined (0::nat), counterweights = [Defined 2]\<rparr>)
   \<and> pop (=)
        (push (clear \<lparr>items = [Defined 5],
                 rules = [\<lparr>mainElement = Defined (0::nat), counterweights = [Defined 1]\<rparr>,
                          \<lparr>mainElement = Defined 0, counterweights = [Defined 2]\<rparr>]\<rparr>)
           (Defined 0))
        (Defined 2)
     = (Undefined, \<lparr>items = [Defined 0],
          rules = [\<lparr>mainElement = Defined 0, counterweights = [Defined 1]\<rparr>,
                   \<lparr>mainElement = Defined 0, counterweights = [Defined 2]\<rparr>]\<rparr>)"
  by (simp add: stack_defs)

subsection \<open>Reading the rule table from the store\<close>

text \<open>
  A rule table read from the store depends only on the cells of its footprint, and a
  table that can be read is read the same after the store has grown.
\<close>

lemma loadRule_cong:
  assumes "cellAt h' r = cellAt h r"
    and "\<forall>c\<in>set (counterweightsRef h r). cellAt h' c = cellAt h c"
  shows "loadRule h' r = loadRule h r"
  using assms
  by (auto simp: loadRule_def counterweightsRef_def split: option.splits cell.splits)

lemma loadRules_cong:
  assumes "\<forall>b\<in>set (footprint h a). cellAt h' b = cellAt h b"
  shows "loadRules h' a = loadRules h a"
proof (cases "cellAt h a")
  case None
  then show ?thesis
    using assms by (simp add: footprint_def loadRules_def)
next
  case (Some cl)
  show ?thesis
  proof (cases cl)
    case (RuleArray rs)
    have fp: "footprint h a = a # rs @ concat (map (counterweightsRef h) rs)"
      using Some RuleArray by (simp add: footprint_def)
    have a: "cellAt h' a = Some (RuleArray rs)"
      using assms Some RuleArray by (simp add: fp)
    have "loadRule h' r = loadRule h r" if "r \<in> set rs" for r
      by (rule loadRule_cong) (use assms that in \<open>auto simp: fp\<close>)
    then have "map (loadRule h') rs = map (loadRule h) rs"
      by simp
    then have "those (map (loadRule h') rs) = those (map (loadRule h) rs)"
      by (rule arg_cong)
    then show ?thesis
      using a Some RuleArray by (simp add: loadRules_def)
  next
    case (RuleObject m c)
    then show ?thesis
      using assms Some by (simp add: footprint_def loadRules_def)
  next
    case (ElemArray cws)
    then show ?thesis
      using assms Some by (simp add: footprint_def loadRules_def)
  qed
qed

lemma cellAt_append: "cellAt h a = Some c \<Longrightarrow> cellAt (h @ ext) a = Some c"
  by (simp add: cellAt_def nth_append split: if_splits)

lemma loadRule_SomeD:
  assumes "loadRule h r = Some rule"
  obtains c where "cellAt h r = Some (RuleObject (mainElement rule) c)"
    and "cellAt h c = Some (ElemArray (counterweights rule))"
  using assms by (auto simp: loadRule_def split: option.splits cell.splits)

lemma loadRule_SomeI:
  assumes "cellAt h r = Some (RuleObject m c)" and "cellAt h c = Some (ElemArray cws)"
  shows "loadRule h r = Some \<lparr>mainElement = m, counterweights = cws\<rparr>
     \<and> counterweightsRef h r = [c]"
  using assms by (simp add: loadRule_def counterweightsRef_def)

lemma loadRule_append:
  assumes "loadRule h r = Some rule"
  shows "loadRule (h @ ext) r = Some rule
     \<and> counterweightsRef (h @ ext) r = counterweightsRef h r"
proof -
  from assms obtain c where r: "cellAt h r = Some (RuleObject (mainElement rule) c)"
    and c: "cellAt h c = Some (ElemArray (counterweights rule))"
    by (rule loadRule_SomeD)
  show ?thesis
    using loadRule_SomeI [OF cellAt_append [OF r, of ext] cellAt_append [OF c, of ext]]
      loadRule_SomeI [OF r c]
    by simp
qed

lemma loadRules_SomeD:
  assumes "loadRules h a = Some rs"
  obtains refs where "cellAt h a = Some (RuleArray refs)"
    and "those (map (loadRule h) refs) = Some rs"
  using assms by (auto simp: loadRules_def split: option.splits cell.splits)

lemma those_Some_all: "those os = Some ys \<Longrightarrow> \<forall>x\<in>set os. x \<noteq> None"
  by (induction os arbitrary: ys) (auto split: option.splits)

text \<open>
  Writes outside a range of cells, and allocations, leave the cells of that range as they
  are.
\<close>

lemma mutate_frame:
  assumes "outside lo hi m" and "hi \<le> length h" and "lo \<le> b" and "b < hi"
  shows "cellAt (mutate h m) b = cellAt h b \<and> hi \<le> length (mutate h m)"
  using assms by (cases m) (auto simp: cellAt_def nth_append)

lemma mutateAll_frame:
  assumes "\<forall>m\<in>set ms. outside lo hi m" and "hi \<le> length h" and "lo \<le> b" and "b < hi"
  shows "cellAt (mutateAll h ms) b = cellAt h b"
  using assms unfolding mutateAll_def
proof (induction ms arbitrary: h)
  case Nil
  then show ?case by simp
next
  case (Cons m ms)
  have f: "cellAt (mutate h m) b = cellAt h b \<and> hi \<le> length (mutate h m)"
    by (rule mutate_frame) (use Cons.prems in auto)
  have "cellAt (foldl mutate (mutate h m) ms) b = cellAt (mutate h m) b"
    by (rule Cons.IH) (use Cons.prems f in auto)
  then show ?case using f by simp
qed

lemma loadRules_mutateAll:
  assumes "\<forall>b\<in>set (footprint h a). lo \<le> b \<and> b < length h"
    and "\<forall>m\<in>set ms. outside lo (length h) m"
  shows "loadRules (mutateAll h ms) a = loadRules h a"
proof (rule loadRules_cong, rule ballI)
  fix b assume "b \<in> set (footprint h a)"
  then have "lo \<le> b" and "b < length h" using assms(1) by auto
  then show "cellAt (mutateAll h ms) b = cellAt h b"
    using assms(2) by (intro mutateAll_frame [where lo = lo and hi = "length h"]) auto
qed

subsection \<open>The two copies of the constructor\<close>

text \<open>
  The shallow copy \<^verbatim>\<open>[...rules]\<close> of a well-typed rule array cannot fail, and the
  instance reads the caller's rules through it.
\<close>

lemma spread_keeps_rules:
  assumes "loadRules h a = Some rs"
  shows "\<exists>h' copy. spread h a = Inr (h', copy) \<and> loadRules h' copy = Some rs"
proof -
  from assms obtain refs where a: "cellAt h a = Some (RuleArray refs)"
    and th: "those (map (loadRule h) refs) = Some rs"
    by (rule loadRules_SomeD)
  let ?h' = "h @ [RuleArray refs]"
  have "loadRule ?h' r = loadRule h r" if "r \<in> set refs" for r
    using those_Some_all [OF th] that loadRule_append [of h r _ "[RuleArray refs]"] by auto
  then have "those (map (loadRule ?h') refs) = those (map (loadRule h) refs)"
    by (simp cong: map_cong)
  then have "loadRules ?h' (length h) = Some rs"
    using th by (simp add: loadRules_def cellAt_def)
  then show ?thesis
    using a by (simp add: spread_def)
qed

text \<open>
  The deep copy \<open>cloneRules\<close> of a well-typed rule array succeeds, leaves the cells
  of the caller as they are, is read as the same rule table, and consists of new cells
  only. The last property is what the isolation theorem below asks of
  \<^verbatim>\<open>structuredClone\<close>.
\<close>

lemma cloneRule_new:
  assumes "loadRule h r = Some rule"
  shows "cloneRule h r
       = Inr (h @ [ElemArray (counterweights rule), RuleObject (mainElement rule) (length h)],
              length h + 1)"
proof -
  from assms obtain c where r: "cellAt h r = Some (RuleObject (mainElement rule) c)"
    and c: "cellAt h c = Some (ElemArray (counterweights rule))"
    by (rule loadRule_SomeD)
  then show ?thesis by (simp add: cloneRule_def)
qed

lemma loadRule_new:
  "loadRule (h @ [ElemArray cws, RuleObject m (length h)] @ ext) (length h + 1)
     = Some \<lparr>mainElement = m, counterweights = cws\<rparr>
   \<and> counterweightsRef (h @ [ElemArray cws, RuleObject m (length h)] @ ext) (length h + 1)
     = [length h]"
  by (simp add: loadRule_def counterweightsRef_def cellAt_def nth_append)

lemma cloneRuleList_spec:
  assumes "\<forall>r\<in>set rs. loadRule h r \<noteq> None"
  shows "\<exists>ext rs'. cloneRuleList h rs = Inr (h @ ext, rs')
      \<and> (\<forall>r'\<in>set rs'. length h \<le> r' \<and> r' < length (h @ ext))
      \<and> (\<forall>r'\<in>set rs'. \<forall>c\<in>set (counterweightsRef (h @ ext) r'). length h \<le> c \<and> c < length (h @ ext))
      \<and> map (loadRule (h @ ext)) rs' = map (loadRule h) rs"
  using assms
proof (induction rs arbitrary: h)
  case Nil
  then show ?case by simp
next
  case (Cons r rs)
  obtain rule where rule: "loadRule h r = Some rule"
    using Cons.prems by auto
  define e1 where "e1 = [ElemArray (counterweights rule), RuleObject (mainElement rule) (length h)]"
  have c1: "cloneRule h r = Inr (h @ e1, length h + 1)"
    using cloneRule_new [OF rule] by (simp add: e1_def)
  have len: "length e1 = 2"
    by (simp add: e1_def)
  have keep: "loadRule (h @ e1) x = loadRule h x" if "x \<in> set rs" for x
    using Cons.prems that loadRule_append [of h x _ e1] by auto
  then have "\<forall>x\<in>set rs. loadRule (h @ e1) x \<noteq> None"
    using Cons.prems by simp
  from Cons.IH [OF this] obtain ext rs' where
    rec: "cloneRuleList (h @ e1) rs = Inr ((h @ e1) @ ext, rs')"
    and rng: "\<forall>r'\<in>set rs'. length (h @ e1) \<le> r' \<and> r' < length ((h @ e1) @ ext)"
    and cws: "\<forall>r'\<in>set rs'. \<forall>c\<in>set (counterweightsRef ((h @ e1) @ ext) r').
                length (h @ e1) \<le> c \<and> c < length ((h @ e1) @ ext)"
    and lds: "map (loadRule ((h @ e1) @ ext)) rs' = map (loadRule (h @ e1)) rs"
    by blast
  have new: "loadRule (h @ e1 @ ext) (length h + 1) = Some rule
      \<and> counterweightsRef (h @ e1 @ ext) (length h + 1) = [length h]"
    using loadRule_new [of h "counterweights rule" "mainElement rule" ext]
    by (simp add: e1_def)
  have res: "cloneRuleList h (r # rs) = Inr (h @ (e1 @ ext), (length h + 1) # rs')"
    using c1 rec by simp
  have l1: "\<forall>r'\<in>set ((length h + 1) # rs'). length h \<le> r' \<and> r' < length (h @ (e1 @ ext))"
    using rng len by auto
  have l2: "\<forall>r'\<in>set ((length h + 1) # rs'). \<forall>c\<in>set (counterweightsRef (h @ (e1 @ ext)) r').
        length h \<le> c \<and> c < length (h @ (e1 @ ext))"
  proof (intro ballI)
    fix r' c
    assume r': "r' \<in> set ((length h + 1) # rs')"
      and c: "c \<in> set (counterweightsRef (h @ (e1 @ ext)) r')"
    show "length h \<le> c \<and> c < length (h @ (e1 @ ext))"
    proof (cases "r' = length h + 1")
      case True
      then show ?thesis using c new len by simp
    next
      case False
      then have "r' \<in> set rs'" using r' by simp
      then have "length (h @ e1) \<le> c \<and> c < length ((h @ e1) @ ext)"
        using cws c by simp
      then show ?thesis by simp
    qed
  qed
  have l3: "map (loadRule (h @ (e1 @ ext))) ((length h + 1) # rs') = map (loadRule h) (r # rs)"
    using lds new rule keep by simp
  show ?case
    using res l1 l2 l3 by blast
qed

lemma cloneRules_deep_copy:
  assumes "loadRules h a = Some rs"
  shows "\<exists>h' copy. cloneRules h a = Inr (h', copy)
      \<and> take (length h) h' = h
      \<and> (\<forall>b\<in>set (footprint h' copy). length h \<le> b \<and> b < length h')
      \<and> loadRules h' copy = Some rs"
proof -
  obtain refs where a: "cellAt h a = Some (RuleArray refs)"
    and th: "those (map (loadRule h) refs) = Some rs"
    using assms by (auto simp: loadRules_def split: option.splits cell.splits)
  have "\<forall>r\<in>set refs. loadRule h r \<noteq> None"
    using those_Some_all [OF th] by auto
  from cloneRuleList_spec [OF this] obtain ext refs' where
    rec: "cloneRuleList h refs = Inr (h @ ext, refs')"
    and rng: "\<forall>r'\<in>set refs'. length h \<le> r' \<and> r' < length (h @ ext)"
    and cws: "\<forall>r'\<in>set refs'. \<forall>c\<in>set (counterweightsRef (h @ ext) r').
                length h \<le> c \<and> c < length (h @ ext)"
    and lds: "map (loadRule (h @ ext)) refs' = map (loadRule h) refs"
    by blast
  let ?h' = "(h @ ext) @ [RuleArray refs']"
  have res: "cloneRules h a = Inr (?h', length (h @ ext))"
    using a rec by (simp add: cloneRules_def)
  have top: "cellAt ?h' (length (h @ ext)) = Some (RuleArray refs')"
    by (simp add: cellAt_def nth_append)
  have same: "loadRule ?h' r' = loadRule (h @ ext) r'
      \<and> counterweightsRef ?h' r' = counterweightsRef (h @ ext) r'" if "r' \<in> set refs'" for r'
  proof -
    have "loadRule (h @ ext) r' \<noteq> None"
      using that lds th those_Some_all [OF th]
      by (metis (no_types, lifting) in_set_conv_nth length_map nth_map nth_mem)
    then obtain rule where "loadRule (h @ ext) r' = Some rule" by auto
    then show ?thesis
      using loadRule_append [of "h @ ext" r' rule "[RuleArray refs']"] by simp
  qed
  have fp: "footprint ?h' (length (h @ ext))
      = length (h @ ext) # refs' @ concat (map (counterweightsRef (h @ ext)) refs')"
    using top same by (simp add: footprint_def cong: map_cong)
  have f: "\<forall>b\<in>set (footprint ?h' (length (h @ ext))). length h \<le> b \<and> b < length ?h'"
    unfolding fp using rng cws by (auto simp: less_Suc_eq)
  have "map (loadRule ?h') refs' = map (loadRule h) refs"
    using same lds by (simp cong: map_cong)
  then have l: "loadRules ?h' (length (h @ ext)) = Some rs"
    using top th by (simp add: loadRules_def)
  show ?thesis
    using res f l by (intro exI [of _ ?h'] exI [of _ "length (h @ ext)"]) simp
qed

lemma popAt_view:
  "view h obj = Some this \<Longrightarrow>
     popAt deq h (obj\<lparr>stackItems := its\<rparr>) x
       = Inr (fst (pop deq (this\<lparr>items := its\<rparr>) x),
              obj\<lparr>stackItems := items (snd (pop deq (this\<lparr>items := its\<rparr>) x))\<rparr>)"
  by (auto simp: popAt_def view_def split: option.splits prod.splits)

text \<open>
  C9. Suppose \<^verbatim>\<open>structuredClone\<close> succeeded in the constructor and returned a deep
  copy: every cell the copy is read from was allocated by the call. Then the constructor
  stores the copy without a warning, and whatever the caller does afterwards to the store,
  writing to cells that existed before the call (its rule array, its rule objects and
  their arrays of counterweights among them) or to cells it allocates later, every
  \<open>pop\<close> on the instance, for every content of the stack and every argument, has the
  same outcome as without these mutations. Elements are values here: a mutation inside an
  element object that the caller has also pushed is not a mutation of the rule array or of
  a rule object.
\<close>

theorem constructor_isolates_rules:
  assumes "structuredClone h rulesArg = Inr (h', copy)"
    and "\<forall>b\<in>set (footprint h' copy). length h \<le> b \<and> b < length h'"
    and "\<forall>m\<in>set ms. outside (length h) (length h') m"
  shows "constructor structuredClone h rulesArg = Inr (\<lparr>stackItems = [], rulesRef = copy\<rparr>, h', [])
     \<and> popAt deq (mutateAll h' ms) \<lparr>stackItems = its, rulesRef = copy\<rparr> x
         = popAt deq h' \<lparr>stackItems = its, rulesRef = copy\<rparr> x"
proof -
  have "loadRules (mutateAll h' ms) copy = loadRules h' copy"
    by (rule loadRules_mutateAll [where lo = "length h"]) (use assms in auto)
  then show ?thesis
    using assms(1) by (simp add: constructor_def popAt_def view_def)
qed

text \<open>
  The rules of the example program: the caller empties the counterweights of the
  \<^verbatim>\<open>if\<close> rule, redirects that rule to another main element, and replaces the content
  of its rule array by a new rule object; \<^verbatim>\<open>pop(then)\<close> still returns \<^verbatim>\<open>if\<close>.
\<close>

theorem constructor_isolates_rules_witness:
  "constructor cloneRules myStore 4
     = Inr (\<lparr>stackItems = [], rulesRef = 9\<rparr>,
         myStore @ [ElemArray [endToken, endDotToken], RuleObject beginToken 5,
           ElemArray [thenToken], RuleObject ifToken 7, RuleArray [6, 8]],
         [])
   \<and> popAt (=)
        (myStore @ [ElemArray [endToken, endDotToken], RuleObject beginToken 5,
           ElemArray [thenToken], RuleObject ifToken 7, RuleArray [6, 8]])
        \<lparr>stackItems = [beginToken, ifToken], rulesRef = 9\<rparr> thenToken
       = Inr (ifToken, \<lparr>stackItems = [beginToken], rulesRef = 9\<rparr>)
   \<and> popAt (=)
        (mutateAll
           (myStore @ [ElemArray [endToken, endDotToken], RuleObject beginToken 5,
              ElemArray [thenToken], RuleObject ifToken 7, RuleArray [6, 8]])
           [Write 2 (ElemArray []), Write 3 (RuleObject someOtherToken 0),
            Alloc (RuleObject ifToken 0), Write 4 (RuleArray [10])])
        \<lparr>stackItems = [beginToken, ifToken], rulesRef = 9\<rparr> thenToken
       = Inr (ifToken, \<lparr>stackItems = [beginToken], rulesRef = 9\<rparr>)"
proof -
  let ?h' = "myStore @ [ElemArray [endToken, endDotToken], RuleObject beginToken 5,
      ElemArray [thenToken], RuleObject ifToken 7, RuleArray [6, 8]]"
  let ?ms = "[Write 2 (ElemArray []), Write 3 (RuleObject someOtherToken 0),
               Alloc (RuleObject ifToken 0), Write 4 (RuleArray [10])]"
  have c: "cloneRules myStore 4 = Inr (?h', 9)"
    by (simp add: store_defs)
  have f: "\<forall>b\<in>set (footprint ?h' 9). length myStore \<le> b \<and> b < length ?h'"
    by (simp add: footprint_def counterweightsRef_def cellAt_def myStore_def)
  have m: "\<forall>m\<in>set ?ms. outside (length myStore) (length ?h') m"
    by (simp add: myStore_def)
  have p: "popAt (=) ?h' \<lparr>stackItems = [beginToken, ifToken], rulesRef = 9\<rparr> thenToken
          = Inr (ifToken, \<lparr>stackItems = [beginToken], rulesRef = 9\<rparr>)"
    by (simp add: store_defs stack_defs token_defs)
  show ?thesis
    using constructor_isolates_rules [where structuredClone = cloneRules and h = myStore
        and rulesArg = 4 and deq = "(=)" and its = "[beginToken, ifToken]"
        and x = thenToken, OF c f m] p
    by simp
qed

text \<open>
  Without the deep copy the isolation is partial, as the warning of the constructor says:
  after the fallback the instance has its own array, so emptying the caller's array
  changes nothing, but it shares the rule objects, and emptying the counterweights of the
  \<^verbatim>\<open>if\<close> rule makes \<^verbatim>\<open>pop(then)\<close> fail.
\<close>

lemma shallow_copy_shares_rule_objects:
  "constructor cloneFails myStore 4
     = Inr (\<lparr>stackItems = [], rulesRef = 5\<rparr>, myStore @ [RuleArray [1, 3]],
         [''structuredClone failed, using shallow copy for rules. Ensure rules are not modified externally.''])
   \<and> popAt (=) (myStore @ [RuleArray [1, 3]])
        \<lparr>stackItems = [beginToken, ifToken], rulesRef = 5\<rparr> thenToken
       = Inr (ifToken, \<lparr>stackItems = [beginToken], rulesRef = 5\<rparr>)
   \<and> popAt (=) (mutateAll (myStore @ [RuleArray [1, 3]]) [Write 4 (RuleArray [])])
        \<lparr>stackItems = [beginToken, ifToken], rulesRef = 5\<rparr> thenToken
       = Inr (ifToken, \<lparr>stackItems = [beginToken], rulesRef = 5\<rparr>)
   \<and> popAt (=) (mutateAll (myStore @ [RuleArray [1, 3]]) [Write 2 (ElemArray [])])
        \<lparr>stackItems = [beginToken, ifToken], rulesRef = 5\<rparr> thenToken
       = Inr (Undefined, \<lparr>stackItems = [beginToken, ifToken], rulesRef = 5\<rparr>)"
  by (simp add: store_defs stack_defs token_defs)

subsection \<open>Raising\<close>

text \<open>
  With a \<^verbatim>\<open>deepEqual\<close> that returns a boolean for every pair of values, the methods
  that can raise return what the methods above return, and every call returns.
\<close>

lemma findRule_total:
  assumes "\<forall>a b. deqE a b = Inr (deq a b)"
  shows "findRule deqE main rs = Inr (find (\<lambda>r. deq (mainElement r) main) rs)"
  using assms by (induction rs) simp_all

lemma someCounterweight_total:
  assumes "\<forall>a b. deqE a b = Inr (deq a b)"
  shows "someCounterweight deqE x cws = Inr (list_ex (\<lambda>cw. deq cw x) cws)"
  using assms by (induction cws) simp_all

lemma isValidCounterweightE_total:
  assumes "\<forall>a b. deqE a b = Inr (deq a b)"
  shows "isValidCounterweightE deqE this main x = Inr (isValidCounterweight deq this main x)"
  using findRule_total [OF assms] someCounterweight_total [OF assms]
  by (simp add: isValidCounterweightE_def isValidCounterweight_def split: option.splits)

lemma popE_total:
  assumes "\<forall>a b. deqE a b = Inr (deq a b)"
  shows "popE deqE this x = Inr (pop deq this x)"
  using isValidCounterweightE_total [OF assms]
  by (simp add: popE_def pop_def Let_def)

lemma compareTopE_total:
  assumes "\<forall>a b. deqE a b = Inr (deq a b)"
  shows "compareTopE deqE this item = Inr (compareTop deq this item)"
  using assms by (simp add: compareTopE_def compareTop_def)

lemma invoke_total:
  assumes "\<forall>a b. deqE a b = Inr (deq a b)"
  shows "\<exists>result this'. invoke deqE this c = Inr (result, this')"
  using popE_total [OF assms] compareTopE_total [OF assms]
  by (cases c) (simp_all split: prod.splits)

lemma invokeAll_total:
  assumes "\<forall>a b. deqE a b = Inr (deq a b)"
  shows "\<exists>results this'. invokeAll deqE this cs = Inr (results, this')"
proof (induction cs arbitrary: this)
  case Nil
  show ?case by simp
next
  case (Cons c cs)
  from invoke_total [OF assms] obtain result this'
    where c: "invoke deqE this c = Inr (result, this')" by blast
  from Cons.IH obtain results this''
    where cs: "invokeAll deqE this' cs = Inr (results, this'')" by blast
  show ?case using c cs by simp
qed

lemma invoke_Pop_total:
  assumes "\<forall>a b. deqE a b = Inr (deq a b)"
  shows "invoke deqE this (Pop x) = Inr (Returns (fst (pop deq this x)), snd (pop deq this x))"
  using popE_total [OF assms] by (simp split: prod.splits)

text \<open>
  C7, as amended. Suppose the argument of the constructor is a well-formed array of rules
  (an array of plain rule objects, each with its array of counterweights),
  \<^verbatim>\<open>structuredClone\<close> either throws or returns a copy that reads as the same rule
  table, and \<^verbatim>\<open>deepEqual\<close> returns a boolean for every pair of values. Then no public
  operation raises. The constructor returns an instance whether \<^verbatim>\<open>structuredClone\<close>
  returns or throws (its \<^verbatim>\<open>catch\<close> takes the shallow copy); the instance reads the
  caller's rule table, and every \<open>pop\<close> on it returns a result. Every sequence of calls
  of \<open>push\<close>, \<open>pop\<close>, \<open>peek\<close>, \<open>isEmpty\<close>, \<open>size\<close>, \<open>clear\<close> and
  \<open>compareTop\<close>, on any instance, returns a result for each call. A call of \<open>pop\<close>
  returns what \<open>pop\<close> computes, and in its three rejections (empty stack, no rule for
  the top, argument not among the counterweights of the first rule matching the top) it
  returns \<^verbatim>\<open>undefined\<close> and leaves the instance as it was.
\<close>

theorem no_operation_raises:
  assumes "loadRules h rulesArg = Some rs"
    and "\<forall>h' copy. structuredClone h rulesArg = Inr (h', copy) \<longrightarrow> loadRules h' copy = Some rs"
    and "\<forall>a b. deqE a b = Inr (deq a b)"
  shows "(\<exists>obj h' w. constructor structuredClone h rulesArg = Inr (obj, h', w)
            \<and> view h' obj = Some \<lparr>items = [], rules = rs\<rparr>
            \<and> (\<forall>its y. \<exists>result obj'. popAt deq h' (obj\<lparr>stackItems := its\<rparr>) y = Inr (result, obj')))
     \<and> (\<exists>results this'. invokeAll deqE this calls = Inr (results, this'))
     \<and> invoke deqE this (Pop x) = Inr (Returns (fst (pop deq this x)), snd (pop deq this x))
     \<and> (isEmpty this \<longrightarrow> invoke deqE this (Pop x) = Inr (Returns Undefined, this))
     \<and> (\<not> isEmpty this \<and> (\<forall>r\<in>set (rules this). \<not> deq (mainElement r) (peek this))
          \<longrightarrow> invoke deqE this (Pop x) = Inr (Returns Undefined, this))
     \<and> (\<not> isEmpty this \<and> rules this = before @ rule # after
          \<and> (\<forall>r\<in>set before. \<not> deq (mainElement r) (peek this))
          \<and> deq (mainElement rule) (peek this)
          \<and> \<not> (\<exists>cw\<in>set (counterweights rule). deq cw x)
          \<longrightarrow> invoke deqE this (Pop x) = Inr (Returns Undefined, this))"
proof -
  have built: "\<exists>obj h' w. constructor structuredClone h rulesArg = Inr (obj, h', w)
      \<and> view h' obj = Some \<lparr>items = [], rules = rs\<rparr>"
  proof (cases "structuredClone h rulesArg")
    case (Inl e)
    from spread_keeps_rules [OF assms(1)] obtain h' copy
      where "spread h rulesArg = Inr (h', copy)" and "loadRules h' copy = Some rs"
      by blast
    then show ?thesis
      using Inl by (simp add: constructor_def view_def)
  next
    case (Inr p)
    obtain h' copy where p: "p = (h', copy)" by (cases p)
    then have "loadRules h' copy = Some rs"
      using assms(2) Inr by simp
    then show ?thesis
      using Inr p by (simp add: constructor_def view_def)
  qed
  then obtain obj h' w where c: "constructor structuredClone h rulesArg = Inr (obj, h', w)"
    and v: "view h' obj = Some \<lparr>items = [], rules = rs\<rparr>"
    by blast
  have total: "\<exists>result obj'. popAt deq h' (obj\<lparr>stackItems := its\<rparr>) y = Inr (result, obj')"
    for its y
    using popAt_view [OF v, of deq its y] by blast
  have calls: "\<exists>results this'. invokeAll deqE this calls = Inr (results, this')"
    by (rule invokeAll_total [OF assms(3)])
  have inv: "invoke deqE this (Pop x) = Inr (Returns (fst (pop deq this x)), snd (pop deq this x))"
    by (rule invoke_Pop_total [OF assms(3)])
  have empty: "invoke deqE this (Pop x) = Inr (Returns Undefined, this)" if "isEmpty this"
    unfolding inv using that by (simp add: pop_cases)
  have unruled: "invoke deqE this (Pop x) = Inr (Returns Undefined, this)"
    if "\<forall>r\<in>set (rules this). \<not> deq (mainElement r) (peek this)"
  proof -
    have "\<not> isValidCounterweight deq this (peek this) x"
      by (rule isValid_no_rule) (use that in blast)
    then show ?thesis unfolding inv by (simp add: pop_cases)
  qed
  have refused: "invoke deqE this (Pop x) = Inr (Returns Undefined, this)"
    if "rules this = before @ rule # after"
      and "\<forall>r\<in>set before. \<not> deq (mainElement r) (peek this)"
      and "deq (mainElement rule) (peek this)"
      and "\<not> (\<exists>cw\<in>set (counterweights rule). deq cw x)"
  proof -
    have "isValidCounterweight deq this (peek this) x = (\<exists>cw\<in>set (counterweights rule). deq cw x)"
      by (rule isValid_first_match) (use that in auto)
    then show ?thesis unfolding inv using that(4) by (simp add: pop_cases)
  qed
  show ?thesis
    using c v total calls inv empty unruled refused by blast
qed

text \<open>
  The constructor with a \<^verbatim>\<open>structuredClone\<close> that throws, the calls of the example
  program followed by one call of each remaining method, and the three rejections on the
  rules of the example program.
\<close>

theorem no_operation_raises_witness:
  "loadRules myStore 4 = Some myRules
   \<and> constructor cloneFails myStore 4
       = Inr (\<lparr>stackItems = [], rulesRef = 5\<rparr>, myStore @ [RuleArray [1, 3]],
           [''structuredClone failed, using shallow copy for rules. Ensure rules are not modified externally.''])
   \<and> view (myStore @ [RuleArray [1, 3]]) \<lparr>stackItems = [], rulesRef = 5\<rparr>
       = Some \<lparr>items = [], rules = myRules\<rparr>
   \<and> popAt (=) (myStore @ [RuleArray [1, 3]]) \<lparr>stackItems = [], rulesRef = 5\<rparr> endToken
       = Inr (Undefined, \<lparr>stackItems = [], rulesRef = 5\<rparr>)
   \<and> invokeAll (\<lambda>a b. Inr (a = b)) \<lparr>items = [], rules = myRules\<rparr>
        [Push beginToken, Push ifToken, Pop beginToken, Pop thenToken, Push someOtherToken,
         Pop endToken, Peek, Size, IsEmpty, CompareTop someOtherToken, Clear, Pop endToken]
       = Inr ([ReturnsVoid, ReturnsVoid, Returns Undefined, Returns ifToken, ReturnsVoid,
               Returns Undefined, Returns someOtherToken, ReturnsNumber 2,
               ReturnsBoolean False, ReturnsBoolean True, ReturnsVoid, Returns Undefined],
              \<lparr>items = [], rules = myRules\<rparr>)
   \<and> invoke (\<lambda>a b. Inr (a = b)) \<lparr>items = [], rules = myRules\<rparr> (Pop endToken)
       = Inr (Returns Undefined, \<lparr>items = [], rules = myRules\<rparr>)
   \<and> invoke (\<lambda>a b. Inr (a = b)) \<lparr>items = [someOtherToken], rules = myRules\<rparr> (Pop endToken)
       = Inr (Returns Undefined, \<lparr>items = [someOtherToken], rules = myRules\<rparr>)
   \<and> invoke (\<lambda>a b. Inr (a = b)) \<lparr>items = [beginToken], rules = myRules\<rparr> (Pop thenToken)
       = Inr (Returns Undefined, \<lparr>items = [beginToken], rules = myRules\<rparr>)"
proof -
  have l: "loadRules myStore 4 = Some myRules"
    by (simp add: store_defs token_defs)
  have s: "\<forall>h' copy. cloneFails myStore 4 = Inr (h', copy) \<longrightarrow> loadRules h' copy = Some myRules"
    by (simp add: cloneFails_def)
  have d: "\<forall>a b :: Token jsval. (\<lambda>a b. Inr (a = b)) a b = (Inr (a = b) :: error + bool)"
    by simp
  have c: "constructor cloneFails myStore 4
       = Inr (\<lparr>stackItems = [], rulesRef = 5\<rparr>, myStore @ [RuleArray [1, 3]],
           [''structuredClone failed, using shallow copy for rules. Ensure rules are not modified externally.''])"
    by (simp add: store_defs)
  have v: "view (myStore @ [RuleArray [1, 3]]) \<lparr>stackItems = [], rulesRef = 5\<rparr>
       = Some \<lparr>items = [], rules = myRules\<rparr>"
    by (simp add: store_defs token_defs)
  have p: "popAt (=) (myStore @ [RuleArray [1, 3]]) \<lparr>stackItems = [], rulesRef = 5\<rparr> endToken
       = Inr (Undefined, \<lparr>stackItems = [], rulesRef = 5\<rparr>)"
    unfolding popAt_def v by (simp add: stack_defs)
  have a: "invokeAll (\<lambda>a b. Inr (a = b)) \<lparr>items = [], rules = myRules\<rparr>
        [Push beginToken, Push ifToken, Pop beginToken, Pop thenToken, Push someOtherToken,
         Pop endToken, Peek, Size, IsEmpty, CompareTop someOtherToken, Clear, Pop endToken]
       = Inr ([ReturnsVoid, ReturnsVoid, Returns Undefined, Returns ifToken, ReturnsVoid,
               Returns Undefined, Returns someOtherToken, ReturnsNumber 2,
               ReturnsBoolean False, ReturnsBoolean True, ReturnsVoid, Returns Undefined],
              \<lparr>items = [], rules = myRules\<rparr>)"
    by (simp add: raise_defs stack_defs token_defs)
  have e: "invoke (\<lambda>a b. Inr (a = b)) \<lparr>items = [], rules = myRules\<rparr> (Pop endToken)
       = Inr (Returns Undefined, \<lparr>items = [], rules = myRules\<rparr>)"
    by (simp add: raise_defs stack_defs)
  have u: "invoke (\<lambda>a b. Inr (a = b)) \<lparr>items = [someOtherToken], rules = myRules\<rparr> (Pop endToken)
       = Inr (Returns Undefined, \<lparr>items = [someOtherToken], rules = myRules\<rparr>)"
    by (simp add: raise_defs stack_defs token_defs)
  have r: "invoke (\<lambda>a b. Inr (a = b)) \<lparr>items = [beginToken], rules = myRules\<rparr> (Pop thenToken)
       = Inr (Returns Undefined, \<lparr>items = [beginToken], rules = myRules\<rparr>)"
    by (simp add: raise_defs stack_defs token_defs)
  show ?thesis
    using no_operation_raises [where structuredClone = cloneFails and h = myStore
        and rulesArg = 4 and rs = myRules and deqE = "\<lambda>a b. Inr (a = b)" and deq = "(=)",
        OF l s d] l c v p a e u r
    by simp
qed

text \<open>
  C7 as it is stated, for any input, fails. If the argument of the constructor is not an
  array (here the reference to a rule object) and \<^verbatim>\<open>structuredClone\<close> throws, the
  spread in the \<^verbatim>\<open>catch\<close> raises a \<^verbatim>\<open>TypeError\<close> that nothing handles. On an
  instance whose \<^verbatim>\<open>this.rules\<close> is not an array, \<open>pop\<close> on a non-empty stack raises a
  \<^verbatim>\<open>TypeError\<close> at \<^verbatim>\<open>this.rules.find\<close>. And when \<^verbatim>\<open>deepEqual\<close> raises, \<open>pop\<close>
  and \<open>compareTop\<close> raise with it, since neither has a \<^verbatim>\<open>try\<close>.
\<close>

theorem no_operation_raises_counterexample:
  "constructor cloneFails myStore 1 = Inl TypeError
   \<and> popAt (=) myStore \<lparr>stackItems = [beginToken], rulesRef = 1\<rparr> endToken = Inl TypeError
   \<and> invoke (\<lambda>a b. Inl TypeError) \<lparr>items = [beginToken], rules = myRules\<rparr> (Pop endToken)
       = Inl TypeError
   \<and> invoke (\<lambda>a b. Inl TypeError) \<lparr>items = [beginToken], rules = myRules\<rparr> (CompareTop endToken)
       = Inl TypeError"
  by (simp add: store_defs raise_defs stack_defs token_defs)

end
